theory Spec2Isabelle
  imports Complex_Main "HOL-Library.Word"
begin

section \<open>The value model of json-toolkit (include/json-toolkit/json.h)\<close>

text \<open>
  A \<open>Json\<close> handle holds one \<open>std::shared_ptr<details::Node>\<close>. The nodes live in a
  store; a handle is the address of its node, and copying a handle copies the address.
  The store only grows: reference counting frees a node once no handle reaches it, which
  no operation of the interface can observe.
\<close>

subsection \<open>Machine types\<close>

text \<open>
  C++ \<open>int\<close> is a 32-bit two's complement word. Signed overflow is undefined in C++;
  the model takes the wrap-around of the machine subtraction. \<open>std::size_t\<close> is 64 bits.
\<close>

type_synonym cint = "32 word"

type_synonym addr = nat

text \<open>
  A \<open>double\<close> is modelled by the class of its value: not-a-number, an infinity, or a
  finite value (every finite double is a rational). The difference of two finite values is
  taken exactly: the comparison below reads only the sign of the difference, which the
  rounding of IEEE 754 keeps.
\<close>

datatype double = NaN | NegInf | Finite rat | PosInf

fun double_sub :: "double \<Rightarrow> double \<Rightarrow> double" where
  "double_sub NaN y = NaN"
| "double_sub x NaN = NaN"
| "double_sub PosInf PosInf = NaN"
| "double_sub NegInf NegInf = NaN"
| "double_sub PosInf y = PosInf"
| "double_sub NegInf y = NegInf"
| "double_sub (Finite a) PosInf = NegInf"
| "double_sub (Finite a) NegInf = PosInf"
| "double_sub (Finite a) (Finite b) = Finite (a - b)"

fun double_less :: "double \<Rightarrow> double \<Rightarrow> bool" where
  "double_less NaN y = False"
| "double_less x NaN = False"
| "double_less NegInf NegInf = False"
| "double_less NegInf y = True"
| "double_less x NegInf = False"
| "double_less PosInf y = False"
| "double_less (Finite a) PosInf = True"
| "double_less (Finite a) (Finite b) = (a < b)"

text \<open>
  \<open>std::string::compare\<close>: the bytes are compared as unsigned values up to the first
  difference, then the lengths. The standard fixes the sign of the result only; the model
  returns the difference of the two bytes, or of the two lengths.
\<close>

fun string_compare :: "string \<Rightarrow> string \<Rightarrow> int" where
  "string_compare [] [] = 0"
| "string_compare [] (b # bs) = - int (length (b # bs))"
| "string_compare (a # as) [] = int (length (a # as))"
| "string_compare (a # as) (b # bs) =
     (if a = b then string_compare as bs
      else int (of_char a :: nat) - int (of_char b :: nat))"

subsection \<open>Nodes\<close>

datatype JsonType = Null | Boolean | Integer | Number | String | Array | Object

text \<open>\<open>static_cast<int>\<close> of a \<open>JsonType\<close>: the enumerators count from \<open>Null = 0\<close>.\<close>

fun JsonType_int :: "JsonType \<Rightarrow> int" where
  "JsonType_int Null = 0"
| "JsonType_int Boolean = 1"
| "JsonType_int Integer = 2"
| "JsonType_int Number = 3"
| "JsonType_int String = 4"
| "JsonType_int Array = 5"
| "JsonType_int Object = 6"

text \<open>
  The seven node classes. An \<open>ArrayNode\<close> holds a \<open>std::vector<Json>\<close>, a sequence of
  handles; an \<open>ObjectNode\<close> holds a \<open>std::map<std::string, Json>\<close>, kept as its sequence
  of entries in key order (the order its iterators walk).
\<close>

datatype node =
    NullNode
  | BooleanNode bool
  | IntegerNode cint
  | NumberNode double
  | StringNode string
  | ArrayNode "addr list"
  | ObjectNode "(string \<times> addr) list"

fun node_type :: "node \<Rightarrow> JsonType" where
  "node_type NullNode = Null"
| "node_type (BooleanNode b) = Boolean"
| "node_type (IntegerNode i) = Integer"
| "node_type (NumberNode d) = Number"
| "node_type (StringNode str) = String"
| "node_type (ArrayNode xs) = Array"
| "node_type (ObjectNode m) = Object"

subsection \<open>The store and the static instances\<close>

text \<open>
  \<open>NullNode::get\<close>, \<open>BooleanNode::True\<close> and \<open>BooleanNode::False\<close> each hold a
  function-local static instance, created by the first call and returned by every call.
  The header defines the namespace-scope constant \<open>json::null = Json(nullptr)\<close>, whose
  initialiser calls \<open>NullNode::get\<close> during static initialisation. The model starts
  after that call: the Null instance exists in every state, \<open>NullNode::get\<close> reads it,
  and \<open>init_state\<close> is the state in which nothing else has been created. The two Boolean
  instances are created on demand, as the source has them.
\<close>

record state =
  heap :: "node list"
  NullNode_instance :: addr
  True_instance :: "addr option"
  False_instance :: "addr option"

definition init_state :: state where
  "init_state = \<lparr>heap = [NullNode], NullNode_instance = 0,
     True_instance = None, False_instance = None\<rparr>"

definition node_at :: "state \<Rightarrow> addr \<Rightarrow> node option" where
  "node_at s a = (if a < length (heap s) then Some (heap s ! a) else None)"

text \<open>\<open>std::make_shared\<close>: a node at an address that no handle holds yet.\<close>

definition alloc :: "state \<Rightarrow> node \<Rightarrow> addr \<times> state" where
  "alloc s n = (length (heap s), s\<lparr>heap := heap s @ [n]\<rparr>)"

definition NullNode_get :: "state \<Rightarrow> addr" where
  "NullNode_get s = NullNode_instance s"

definition BooleanNode_True :: "state \<Rightarrow> addr \<times> state" where
  "BooleanNode_True s =
     (case True_instance s of
        Some a \<Rightarrow> (a, s)
      | None \<Rightarrow> (case alloc s (BooleanNode True) of
                  (a, s') \<Rightarrow> (a, s'\<lparr>True_instance := Some a\<rparr>)))"

definition BooleanNode_False :: "state \<Rightarrow> addr \<times> state" where
  "BooleanNode_False s =
     (case False_instance s of
        Some a \<Rightarrow> (a, s)
      | None \<Rightarrow> (case alloc s (BooleanNode False) of
                  (a, s') \<Rightarrow> (a, s'\<lparr>False_instance := Some a\<rparr>)))"

text \<open>The static instances hold what their initialisers built.\<close>

definition state_ok :: "state \<Rightarrow> bool" where
  "state_ok s =
     (node_at s (NullNode_instance s) = Some NullNode \<and>
      (case True_instance s of None \<Rightarrow> True
       | Some a \<Rightarrow> node_at s a = Some (BooleanNode True)) \<and>
      (case False_instance s of None \<Rightarrow> True
       | Some a \<Rightarrow> node_at s a = Some (BooleanNode False)))"

subsection \<open>Errors\<close>

text \<open>
  A failed \<open>assert\<close> aborts; \<open>std::vector::at\<close> throws \<open>std::out_of_range\<close>; reading
  through a pointer that owns no node, a \<open>static_cast\<close> to the wrong node class and an
  unchecked \<open>std::vector::operator[]\<close> out of range are undefined behaviour.
\<close>

datatype error = AssertionFailed | OutOfRange | UndefinedBehaviour

subsection \<open>Construction\<close>

definition Json_default :: "state \<Rightarrow> addr \<times> state" where
  "Json_default s = alloc s (ObjectNode [])"

definition Json_nullptr :: "state \<Rightarrow> addr" where
  "Json_nullptr s = NullNode_get s"

definition Json_bool :: "state \<Rightarrow> bool \<Rightarrow> addr \<times> state" where
  "Json_bool s bval = alloc s (BooleanNode bval)"

definition Json_int :: "state \<Rightarrow> cint \<Rightarrow> addr \<times> state" where
  "Json_int s ival = alloc s (IntegerNode ival)"

definition Json_double :: "state \<Rightarrow> double \<Rightarrow> addr \<times> state" where
  "Json_double s nval = alloc s (NumberNode nval)"

text \<open>The constructors from \<open>std::string\<close> and from \<open>const char*\<close> build the same node.\<close>

definition Json_string :: "state \<Rightarrow> string \<Rightarrow> addr \<times> state" where
  "Json_string s str = alloc s (StringNode str)"

subsection \<open>Kind and scalar accessors\<close>

definition Json_type :: "state \<Rightarrow> addr \<Rightarrow> error + JsonType" where
  "Json_type s d =
     (case node_at s d of None \<Rightarrow> Inl UndefinedBehaviour | Some n \<Rightarrow> Inr (node_type n))"

definition Json_toBool :: "state \<Rightarrow> addr \<Rightarrow> error + bool" where
  "Json_toBool s d =
     (case node_at s d of
        None \<Rightarrow> Inl UndefinedBehaviour
      | Some (BooleanNode b) \<Rightarrow> Inr b
      | Some _ \<Rightarrow> Inl AssertionFailed)"

definition Json_toInt :: "state \<Rightarrow> addr \<Rightarrow> error + cint" where
  "Json_toInt s d =
     (case node_at s d of
        None \<Rightarrow> Inl UndefinedBehaviour
      | Some (IntegerNode i) \<Rightarrow> Inr i
      | Some _ \<Rightarrow> Inl AssertionFailed)"

definition Json_toNumber :: "state \<Rightarrow> addr \<Rightarrow> error + double" where
  "Json_toNumber s d =
     (case node_at s d of
        None \<Rightarrow> Inl UndefinedBehaviour
      | Some (NumberNode x) \<Rightarrow> Inr x
      | Some _ \<Rightarrow> Inl AssertionFailed)"

definition Json_toString :: "state \<Rightarrow> addr \<Rightarrow> error + string" where
  "Json_toString s d =
     (case node_at s d of
        None \<Rightarrow> Inl UndefinedBehaviour
      | Some (StringNode str) \<Rightarrow> Inr str
      | Some _ \<Rightarrow> Inl AssertionFailed)"

subsection \<open>Array interface\<close>

text \<open>\<open>(int) value.size()\<close>: the size cut to 32 bits.\<close>

definition Json_length :: "state \<Rightarrow> addr \<Rightarrow> error + cint" where
  "Json_length s d =
     (case node_at s d of
        None \<Rightarrow> Inl UndefinedBehaviour
      | Some (ArrayNode xs) \<Rightarrow> Inr (of_nat (length xs))
      | Some _ \<Rightarrow> Inl AssertionFailed)"

text \<open>
  An \<open>int\<close> index passed as \<open>size_type\<close> is sign-extended to 64 bits and read unsigned:
  a negative index becomes a position beyond any vector.
\<close>

definition size_t_of_int :: "cint \<Rightarrow> nat" where
  "size_t_of_int i = unat (scast i :: 64 word)"

definition vector_at :: "'a list \<Rightarrow> nat \<Rightarrow> error + 'a" where
  "vector_at xs n = (if n < length xs then Inr (xs ! n) else Inl OutOfRange)"

definition Json_at :: "state \<Rightarrow> addr \<Rightarrow> cint \<Rightarrow> error + addr" where
  "Json_at s d index =
     (case node_at s d of
        None \<Rightarrow> Inl UndefinedBehaviour
      | Some (ArrayNode xs) \<Rightarrow> vector_at xs (size_t_of_int index)
      | Some _ \<Rightarrow> Inl AssertionFailed)"

text \<open>
  The mutable accessors return a \<open>Json&\<close>: the place of a handle inside a container node,
  an element position of an array node or a key of an object node.
\<close>

datatype reference = ArraySlot addr nat | ObjectSlot addr string

definition reference_get :: "state \<Rightarrow> reference \<Rightarrow> error + addr" where
  "reference_get s r =
     (case r of
        ArraySlot d n \<Rightarrow>
          (case node_at s d of
             Some (ArrayNode xs) \<Rightarrow>
               (if n < length xs then Inr (xs ! n) else Inl UndefinedBehaviour)
           | _ \<Rightarrow> Inl UndefinedBehaviour)
      | ObjectSlot d key \<Rightarrow>
          (case node_at s d of
             Some (ObjectNode m) \<Rightarrow>
               (case map_of m key of Some v \<Rightarrow> Inr v | None \<Rightarrow> Inl UndefinedBehaviour)
           | _ \<Rightarrow> Inl UndefinedBehaviour))"

text \<open>\<open>operator[](int)\<close> uses \<open>std::vector::operator[]\<close>, which checks no range.\<close>

definition Json_index :: "state \<Rightarrow> addr \<Rightarrow> cint \<Rightarrow> error + reference" where
  "Json_index s d index =
     (case node_at s d of
        None \<Rightarrow> Inl UndefinedBehaviour
      | Some (ArrayNode xs) \<Rightarrow>
          (if size_t_of_int index < length xs then Inr (ArraySlot d (size_t_of_int index))
           else Inl UndefinedBehaviour)
      | Some _ \<Rightarrow> Inl AssertionFailed)"

definition Json_push :: "state \<Rightarrow> addr \<Rightarrow> addr \<Rightarrow> error + state" where
  "Json_push s d val =
     (case node_at s d of
        None \<Rightarrow> Inl UndefinedBehaviour
      | Some (ArrayNode xs) \<Rightarrow> Inr (s\<lparr>heap := (heap s)[d := ArrayNode (xs @ [val])]\<rparr>)
      | Some _ \<Rightarrow> Inl AssertionFailed)"

subsection \<open>Object interface\<close>

text \<open>
  \<open>std::map::find\<close> is the lookup \<open>map_of\<close> in the entry sequence. A new entry goes
  before the first entry with a greater key (\<open>std::less<std::string>\<close> is
  \<open>compare < 0\<close>).
\<close>

fun map_insert :: "string \<Rightarrow> addr \<Rightarrow> (string \<times> addr) list \<Rightarrow> (string \<times> addr) list" where
  "map_insert key v [] = [(key, v)]"
| "map_insert key v ((k, w) # m) =
     (if string_compare key k < 0 then (key, v) # (k, w) # m
      else (k, w) # map_insert key v m)"

text \<open>
  \<open>operator[](const std::string&)\<close>: \<open>std::map::operator[]\<close> adds a missing key with
  a value-initialised \<open>Json\<close>, that is \<open>Json()\<close>.
\<close>

definition Json_key :: "state \<Rightarrow> addr \<Rightarrow> string \<Rightarrow> error + reference \<times> state" where
  "Json_key s d key =
     (case node_at s d of
        None \<Rightarrow> Inl UndefinedBehaviour
      | Some (ObjectNode m) \<Rightarrow>
          (case map_of m key of
             Some v \<Rightarrow> Inr (ObjectSlot d key, s)
           | None \<Rightarrow>
               (case Json_default s of
                  (v, s') \<Rightarrow>
                    Inr (ObjectSlot d key,
                         s'\<lparr>heap := (heap s')[d := ObjectNode (map_insert key v m)]\<rparr>)))
      | Some _ \<Rightarrow> Inl AssertionFailed)"

text \<open>\<open>operator[](const std::string&) const\<close>: \<open>return nullptr\<close> builds \<open>Json(nullptr)\<close>.\<close>

definition Json_key_const :: "state \<Rightarrow> addr \<Rightarrow> string \<Rightarrow> error + addr" where
  "Json_key_const s d key =
     (case node_at s d of
        None \<Rightarrow> Inl UndefinedBehaviour
      | Some (ObjectNode m) \<Rightarrow>
          (case map_of m key of Some v \<Rightarrow> Inr v | None \<Rightarrow> Inr (Json_nullptr s))
      | Some _ \<Rightarrow> Inl AssertionFailed)"

subsection \<open>Views\<close>

text \<open>\<open>Array::Array(impl)\<close> and \<open>Object::Object(obj)\<close> read \<open>impl->type()\<close>.\<close>

definition Array_ctor :: "state \<Rightarrow> addr \<Rightarrow> error + addr" where
  "Array_ctor s impl =
     (case node_at s impl of
        None \<Rightarrow> Inl UndefinedBehaviour
      | Some n \<Rightarrow> Inr (if node_type n = Array then impl else NullNode_get s))"

definition Object_ctor :: "state \<Rightarrow> addr \<Rightarrow> error + addr" where
  "Object_ctor s obj =
     (case node_at s obj of
        None \<Rightarrow> Inl UndefinedBehaviour
      | Some n \<Rightarrow> Inr (if node_type n = Object then obj else NullNode_get s))"

definition Json_toArray :: "state \<Rightarrow> addr \<Rightarrow> error + addr" where
  "Json_toArray s d = Array_ctor s d"

definition Json_toObject :: "state \<Rightarrow> addr \<Rightarrow> error + addr" where
  "Json_toObject s d = Object_ctor s d"

definition Array_data :: "state \<Rightarrow> addr \<Rightarrow> error + addr list" where
  "Array_data s d =
     (case node_at s d of
        None \<Rightarrow> Inl UndefinedBehaviour
      | Some (ArrayNode xs) \<Rightarrow> Inr xs
      | Some _ \<Rightarrow> Inl AssertionFailed)"

definition Object_data :: "state \<Rightarrow> addr \<Rightarrow> error + (string \<times> addr) list" where
  "Object_data s d =
     (case node_at s d of
        None \<Rightarrow> Inl UndefinedBehaviour
      | Some (ObjectNode m) \<Rightarrow> Inr m
      | Some _ \<Rightarrow> Inl AssertionFailed)"

subsection \<open>Scalar assignment\<close>

text \<open>
  Each \<open>operator=\<close> stores a new pointer in \<open>this->d\<close>. For a \<open>Json\<close> object held in
  a variable the model takes the handle assigned to and returns its new value.
\<close>

definition Json_assign_nullptr :: "state \<Rightarrow> addr \<Rightarrow> addr \<times> state" where
  "Json_assign_nullptr s d = (NullNode_get s, s)"

definition Json_assign_bool :: "state \<Rightarrow> addr \<Rightarrow> bool \<Rightarrow> addr \<times> state" where
  "Json_assign_bool s d val = (if val then BooleanNode_True s else BooleanNode_False s)"

definition Json_assign_int :: "state \<Rightarrow> addr \<Rightarrow> cint \<Rightarrow> addr \<times> state" where
  "Json_assign_int s d val = alloc s (IntegerNode val)"

definition Json_assign_double :: "state \<Rightarrow> addr \<Rightarrow> double \<Rightarrow> addr \<times> state" where
  "Json_assign_double s d val = alloc s (NumberNode val)"

definition Json_assign_string :: "state \<Rightarrow> addr \<Rightarrow> string \<Rightarrow> addr \<times> state" where
  "Json_assign_string s d str = alloc s (StringNode str)"

text \<open>
  When \<open>*this\<close> is a \<open>Json&\<close> returned by \<open>operator[]\<close>, \<open>this->d\<close> lies inside a
  container node: the assignment computes the new pointer as above and stores it in that
  place of the container.
\<close>

definition reference_container :: "reference \<Rightarrow> addr" where
  "reference_container r = (case r of ArraySlot d n \<Rightarrow> d | ObjectSlot d key \<Rightarrow> d)"

fun map_assign :: "string \<Rightarrow> addr \<Rightarrow> (string \<times> addr) list \<Rightarrow> (string \<times> addr) list" where
  "map_assign key p [] = []"
| "map_assign key p ((k, w) # m) =
     (if k = key then (k, p) # m else (k, w) # map_assign key p m)"

definition reference_set :: "state \<Rightarrow> reference \<Rightarrow> addr \<Rightarrow> error + state" where
  "reference_set s r p =
     (case r of
        ArraySlot d n \<Rightarrow>
          (case node_at s d of
             Some (ArrayNode xs) \<Rightarrow>
               (if n < length xs
                then Inr (s\<lparr>heap := (heap s)[d := ArrayNode (xs[n := p])]\<rparr>)
                else Inl UndefinedBehaviour)
           | _ \<Rightarrow> Inl UndefinedBehaviour)
      | ObjectSlot d key \<Rightarrow>
          (case node_at s d of
             Some (ObjectNode m) \<Rightarrow>
               (case map_of m key of
                  Some v \<Rightarrow> Inr (s\<lparr>heap := (heap s)[d := ObjectNode (map_assign key p m)]\<rparr>)
                | None \<Rightarrow> Inl UndefinedBehaviour)
           | _ \<Rightarrow> Inl UndefinedBehaviour))"

definition assign_through :: "reference \<Rightarrow> addr \<times> state \<Rightarrow> error + addr \<times> state" where
  "assign_through r res =
     (case res of
        (p, s1) \<Rightarrow>
          (case reference_set s1 r p of Inl e \<Rightarrow> Inl e | Inr s2 \<Rightarrow> Inr (p, s2)))"

subsection \<open>Comparison\<close>

text \<open>
  \<open>number_compare<T>\<close> at \<open>IntegerNode\<close> and at \<open>NumberNode\<close>: the difference of the
  two payloads in their own type, then \<open>(0 < diff) - (diff < 0)\<close>.
\<close>

definition number_compare_IntegerNode :: "cint \<Rightarrow> cint \<Rightarrow> int" where
  "number_compare_IntegerNode lhs rhs =
     (let diff = lhs - rhs in of_bool (0 <s diff) - of_bool (diff <s 0))"

definition number_compare_NumberNode :: "double \<Rightarrow> double \<Rightarrow> int" where
  "number_compare_NumberNode lhs rhs =
     (let diff = double_sub lhs rhs
      in of_bool (double_less (Finite 0) diff) - of_bool (double_less diff (Finite 0)))"

text \<open>
  The loop of \<open>array_compare\<close> counts an \<open>int\<close> up to \<open>lhs.length()\<close>; it ends because
  the counter stays below the largest \<open>int\<close>.
\<close>

lemma sint_cint_lt: "sint (i::cint) < 2147483648"
  using sint_lt [of i] by simp

lemma sint_cint_ge: "- 2147483648 \<le> sint (i::cint)"
  using sint_ge [of i] by simp

lemma sint_succ: "i <s (n::cint) \<Longrightarrow> sint (i + 1) = sint i + 1"
  using sint_cint_lt [of n] sint_cint_ge [of i]
  by (simp add: word_sless_alt sint_word_ariths signed_take_bit_int_eq_self)

function array_compare_loop ::
  "(addr \<Rightarrow> addr \<Rightarrow> (error + int) option) \<Rightarrow> state \<Rightarrow> addr \<Rightarrow> addr \<Rightarrow> cint \<Rightarrow> (error + int) option" where
  "array_compare_loop cmp s lhs rhs i =
     (case Json_length s lhs of
        Inl e \<Rightarrow> Some (Inl e)
      | Inr n \<Rightarrow>
          if i <s n then
            (case Json_at s lhs i of
               Inl e \<Rightarrow> Some (Inl e)
             | Inr x \<Rightarrow>
                 (case Json_at s rhs i of
                    Inl e \<Rightarrow> Some (Inl e)
                  | Inr y \<Rightarrow>
                      (case cmp x y of
                         None \<Rightarrow> None
                       | Some (Inl e) \<Rightarrow> Some (Inl e)
                       | Some (Inr c) \<Rightarrow>
                           if c \<noteq> 0 then Some (Inr c)
                           else array_compare_loop cmp s lhs rhs (i + 1))))
          else Some (Inr 0))"
  by pat_completeness auto
termination
  by (relation "measure (\<lambda>(cmp, s, lhs, rhs, i). nat (2147483648 - sint i))")
     (auto simp: sint_succ sint_cint_lt)

definition array_compare ::
  "(addr \<Rightarrow> addr \<Rightarrow> (error + int) option) \<Rightarrow> state \<Rightarrow> addr \<Rightarrow> addr \<Rightarrow> (error + int) option" where
  "array_compare cmp s lhs rhs =
     (case Json_length s lhs of
        Inl e \<Rightarrow> Some (Inl e)
      | Inr ll \<Rightarrow>
          (case Json_length s rhs of
             Inl e \<Rightarrow> Some (Inl e)
           | Inr rl \<Rightarrow>
               (let size_diff = ll - rl
                in if size_diff \<noteq> 0
                   then Some (Inr (of_bool (0 <s size_diff) - of_bool (size_diff <s 0)))
                   else array_compare_loop cmp s lhs rhs 0)))"

text \<open>
  The loop of \<open>object_compare\<close> walks two map iterators. An iterator is the sequence of
  the entries from its position on: \<open>begin()\<close> is the whole sequence, \<open>end()\<close> the empty
  one, \<open>++\<close> drops the first entry. \<open>rhs_it\<close> is read without a test against its end.
\<close>

fun object_compare_loop ::
  "(addr \<Rightarrow> addr \<Rightarrow> (error + int) option) \<Rightarrow> (string \<times> addr) list \<Rightarrow> (string \<times> addr) list
     \<Rightarrow> (error + int) option" where
  "object_compare_loop cmp [] rhs_it = Some (Inr 0)"
| "object_compare_loop cmp (l # lhs_it) [] = Some (Inl UndefinedBehaviour)"
| "object_compare_loop cmp (l # lhs_it) (r # rhs_it) =
     (let c = string_compare (fst l) (fst r)
      in if c \<noteq> 0 then Some (Inr c)
         else (case cmp (snd l) (snd r) of
                 None \<Rightarrow> None
               | Some (Inl e) \<Rightarrow> Some (Inl e)
               | Some (Inr c) \<Rightarrow>
                   if c \<noteq> 0 then Some (Inr c)
                   else object_compare_loop cmp lhs_it rhs_it))"

definition object_compare ::
  "(addr \<Rightarrow> addr \<Rightarrow> (error + int) option) \<Rightarrow> state \<Rightarrow> addr \<Rightarrow> addr \<Rightarrow> (error + int) option" where
  "object_compare cmp s lhs rhs =
     (case Object_data s lhs of
        Inl e \<Rightarrow> Some (Inl e)
      | Inr lm \<Rightarrow>
          (case Object_data s rhs of
             Inl e \<Rightarrow> Some (Inl e)
           | Inr rm \<Rightarrow>
               (let size_diff = (of_nat (length lm) :: cint) - of_nat (length rm)
                in if size_diff \<noteq> 0
                   then Some (Inr (of_bool (0 <s size_diff) - of_bool (size_diff <s 0)))
                   else object_compare_loop cmp lm rm)))"

text \<open>
  \<open>compare\<close> reads the payloads through \<open>static_cast\<close>, without the \<open>assert\<close> of the
  accessors.
\<close>

definition BooleanNode_value :: "state \<Rightarrow> addr \<Rightarrow> error + bool" where
  "BooleanNode_value s d =
     (case node_at s d of Some (BooleanNode b) \<Rightarrow> Inr b | _ \<Rightarrow> Inl UndefinedBehaviour)"

definition IntegerNode_value :: "state \<Rightarrow> addr \<Rightarrow> error + cint" where
  "IntegerNode_value s d =
     (case node_at s d of Some (IntegerNode i) \<Rightarrow> Inr i | _ \<Rightarrow> Inl UndefinedBehaviour)"

definition NumberNode_value :: "state \<Rightarrow> addr \<Rightarrow> error + double" where
  "NumberNode_value s d =
     (case node_at s d of Some (NumberNode x) \<Rightarrow> Inr x | _ \<Rightarrow> Inl UndefinedBehaviour)"

text \<open>Both operands of a scalar comparison are read, then combined.\<close>

definition both :: "error + 'a \<Rightarrow> error + 'a \<Rightarrow> ('a \<Rightarrow> 'a \<Rightarrow> int) \<Rightarrow> (error + int) option" where
  "both l r f =
     (case l of
        Inl e \<Rightarrow> Some (Inl e)
      | Inr a \<Rightarrow> (case r of Inl e \<Rightarrow> Some (Inl e) | Inr b \<Rightarrow> Some (Inr (f a b))))"

text \<open>
  \<open>json::compare\<close> calls itself on the elements of containers, and does not return on a
  value that contains itself. The first argument bounds the depth of the nested calls;
  \<open>None\<close> means the bound was reached. The \<open>throw\<close> after the \<open>switch\<close> is not
  reachable: the seven enumerators are all the kinds there are.
\<close>

fun compare :: "nat \<Rightarrow> state \<Rightarrow> addr \<Rightarrow> addr \<Rightarrow> (error + int) option" where
  "compare 0 s lhs rhs = None"
| "compare (Suc fuel) s lhs rhs =
     (case Json_type s lhs of
        Inl e \<Rightarrow> Some (Inl e)
      | Inr lt \<Rightarrow>
          (case Json_type s rhs of
             Inl e \<Rightarrow> Some (Inl e)
           | Inr rt \<Rightarrow>
               (let type_diff = JsonType_int lt - JsonType_int rt
                in if type_diff \<noteq> 0
                   then Some (Inr (of_bool (0 < type_diff) - of_bool (type_diff < 0)))
                   else (case lt of
                           Null \<Rightarrow> Some (Inr 0)
                         | Boolean \<Rightarrow>
                             both (BooleanNode_value s lhs) (BooleanNode_value s rhs)
                               (\<lambda>a b. of_bool a - of_bool b)
                         | Integer \<Rightarrow>
                             both (IntegerNode_value s lhs) (IntegerNode_value s rhs)
                               number_compare_IntegerNode
                         | Number \<Rightarrow>
                             both (NumberNode_value s lhs) (NumberNode_value s rhs)
                               number_compare_NumberNode
                         | String \<Rightarrow>
                             both (Json_toString s lhs) (Json_toString s rhs) string_compare
                         | Array \<Rightarrow>
                             (case Json_toArray s lhs of
                                Inl e \<Rightarrow> Some (Inl e)
                              | Inr la \<Rightarrow>
                                  (case Json_toArray s rhs of
                                     Inl e \<Rightarrow> Some (Inl e)
                                   | Inr ra \<Rightarrow> array_compare (compare fuel s) s la ra))
                         | Object \<Rightarrow>
                             (case Json_toObject s lhs of
                                Inl e \<Rightarrow> Some (Inl e)
                              | Inr lo \<Rightarrow>
                                  (case Json_toObject s rhs of
                                     Inl e \<Rightarrow> Some (Inl e)
                                   | Inr ro \<Rightarrow> object_compare (compare fuel s) s lo ro))))))"

text \<open>\<open>operator==\<close>: the same pointer, or the same kind and \<open>compare\<close> gives 0.\<close>

definition operator_eq :: "nat \<Rightarrow> state \<Rightarrow> addr \<Rightarrow> addr \<Rightarrow> (error + bool) option" where
  "operator_eq fuel s lhs rhs =
     (if lhs = rhs then Some (Inr True)
      else (case Json_type s lhs of
              Inl e \<Rightarrow> Some (Inl e)
            | Inr lt \<Rightarrow>
                (case Json_type s rhs of
                   Inl e \<Rightarrow> Some (Inl e)
                 | Inr rt \<Rightarrow>
                     if lt \<noteq> rt then Some (Inr False)
                     else map_option (map_sum id (\<lambda>c. c = 0)) (compare fuel s lhs rhs))))"

declare array_compare_loop.simps [simp del]

subsection \<open>The order on containers, as the specification words it\<close>

text \<open>
  The first result in a sequence of comparison results that is not 0, or 0 when there is
  none; a comparison that fails or does not return ends the sequence.
\<close>

fun first_nonzero :: "(error + int) option list \<Rightarrow> (error + int) option" where
  "first_nonzero [] = Some (Inr 0)"
| "first_nonzero (r # rs) =
     (case r of
        None \<Rightarrow> None
      | Some (Inl e) \<Rightarrow> Some (Inl e)
      | Some (Inr c) \<Rightarrow> if c \<noteq> 0 then Some (Inr c) else first_nonzero rs)"

definition spec_array_compare ::
  "(addr \<Rightarrow> addr \<Rightarrow> (error + int) option) \<Rightarrow> addr list \<Rightarrow> addr list \<Rightarrow> (error + int) option" where
  "spec_array_compare cmp xs ys =
     (if length xs < length ys then Some (Inr (- 1))
      else if length ys < length xs then Some (Inr 1)
      else first_nonzero (map2 cmp xs ys))"

definition spec_object_compare ::
  "(addr \<Rightarrow> addr \<Rightarrow> (error + int) option) \<Rightarrow> (string \<times> addr) list \<Rightarrow> (string \<times> addr) list
     \<Rightarrow> (error + int) option" where
  "spec_object_compare cmp lm rm =
     (if length lm < length rm then Some (Inr (- 1))
      else if length rm < length lm then Some (Inr 1)
      else first_nonzero
             (concat (map2 (\<lambda>l r. [Some (Inr (string_compare (fst l) (fst r))),
                                     cmp (snd l) (snd r)]) lm rm)))"

subsection \<open>Empty containers\<close>

text \<open>\<open>Array::Array()\<close> and \<open>Object::Object()\<close>.\<close>

definition Array_new :: "state \<Rightarrow> addr \<times> state" where
  "Array_new s = alloc s (ArrayNode [])"

definition Object_new :: "state \<Rightarrow> addr \<times> state" where
  "Object_new s = alloc s (ObjectNode [])"

subsection \<open>Notions used in the properties\<close>

text \<open>Every node of \<open>s\<close> is still there, unchanged, in \<open>s'\<close>.\<close>

definition old_nodes_kept :: "state \<Rightarrow> state \<Rightarrow> bool" where
  "old_nodes_kept s s' = (take (length (heap s)) (heap s') = heap s)"

text \<open>
  A value of nesting depth at most \<open>n\<close>: its handles own nodes, and its containers hold
  fewer than \<open>2^31\<close> entries of depth at most \<open>n - 1\<close>. A value that contains itself
  has no depth.
\<close>

fun well_formed :: "nat \<Rightarrow> state \<Rightarrow> addr \<Rightarrow> bool" where
  "well_formed 0 s d = False"
| "well_formed (Suc n) s d =
     (case node_at s d of
        None \<Rightarrow> False
      | Some (ArrayNode xs) \<Rightarrow> length xs < 2147483648 \<and> list_all (well_formed n s) xs
      | Some (ObjectNode m) \<Rightarrow>
          length m < 2147483648 \<and> list_all (\<lambda>e. well_formed n s (snd e)) m
      | Some _ \<Rightarrow> True)"

text \<open>
  The entries of a \<open>std::map\<close> stand in the strict order of their keys.
\<close>

definition keys_ordered :: "(string \<times> addr) list \<Rightarrow> bool" where
  "keys_ordered m = sorted_wrt (\<lambda>p q. string_compare (fst p) (fst q) < 0) m"

text \<open>
  Two stores for concrete runs. \<open>demo_state\<close> holds the integers 1, 2, 3, the arrays
  \<open>[1,2]\<close>, \<open>[1,2,3]\<close>, \<open>[1,3]\<close>, the objects \<open>{"a":1}\<close>, \<open>{"a":1,"b":2}\<close>, a string
  and the object \<open>{"a":2}\<close>.
\<close>

definition demo_state :: state where
  "demo_state = \<lparr>heap = [NullNode, IntegerNode 1, IntegerNode 2, IntegerNode 3,
      ArrayNode [1, 2], ArrayNode [1, 2, 3], ArrayNode [1, 3],
      ObjectNode [(''a'', 1)], ObjectNode [(''a'', 1), (''b'', 2)], StringNode ''text'',
      ObjectNode [(''a'', 2)]],
     NullNode_instance = 0, True_instance = None, False_instance = None\<rparr>"

text \<open>
  \<open>big_state\<close> holds an array of \<open>2^31\<close> handles of the Null instance, the empty
  array, an object of \<open>2^31\<close> entries and the empty object. The keys of the entries are
  their numbers as four bytes, most significant first, so they are distinct and in key
  order.
\<close>

definition big_key :: "nat \<Rightarrow> string" where
  "big_key i = [char_of (i div 16777216), char_of (i div 65536), char_of (i div 256), char_of i]"

definition big_state :: state where
  "big_state = \<lparr>heap = [NullNode, ArrayNode (replicate 2147483648 0), ArrayNode [],
      ObjectNode (map (\<lambda>i. (big_key i, 0)) [0..<2147483648]), ObjectNode []],
     NullNode_instance = 0, True_instance = None, False_instance = None\<rparr>"

text \<open>\<open>overflow_state\<close> is built by \<open>Json(int)\<close> from the extreme integers.\<close>

definition overflow_state :: state where
  "overflow_state =
     snd (Json_int (snd (Json_int (snd (Json_int (snd (Json_int init_state 0))
       (- 2147483648))) 2147483647)) (- 1))"

section \<open>Properties\<close>

subsection \<open>The store\<close>

lemma node_at_alloc_old:
  "node_at s a = Some n \<Longrightarrow> node_at (snd (alloc s m)) a = Some n"
  by (auto simp: node_at_def alloc_def nth_append split: if_splits)

lemma node_at_alloc_new:
  "node_at (snd (alloc s m)) (fst (alloc s m)) = Some m"
  by (simp add: node_at_def alloc_def)

lemma alloc_fresh: "node_at s (fst (alloc s m)) = None"
  by (simp add: node_at_def alloc_def)

lemma old_nodes_kept_node_at:
  "old_nodes_kept s s' \<Longrightarrow> node_at s c = Some m \<Longrightarrow> node_at s' c = Some m"
proof -
  assume k: "old_nodes_kept s s'" and c: "node_at s c = Some m"
  from c have lt: "c < length (heap s)" and m: "heap s ! c = m"
    by (auto simp: node_at_def split: if_splits)
  from k have eq: "take (length (heap s)) (heap s') = heap s"
    by (simp add: old_nodes_kept_def)
  then have "length (heap s) \<le> length (heap s')"
    by (metis length_take min.cobounded1 min.commute)
  moreover have "heap s' ! c = heap s ! c"
    using lt eq by (metis nth_take)
  ultimately show ?thesis using lt m by (simp add: node_at_def)
qed

lemma old_nodes_kept_alloc: "old_nodes_kept s (snd (alloc s m))"
  by (simp add: old_nodes_kept_def alloc_def)

lemma old_nodes_kept_refl: "old_nodes_kept s s"
  by (simp add: old_nodes_kept_def)

text \<open>
  The static instances stay what they are: every operation that writes the store keeps
  \<open>state_ok\<close>.
\<close>

lemma state_ok_init: "state_ok init_state"
  by (simp add: state_ok_def init_state_def node_at_def)

lemma state_ok_alloc: "state_ok s \<Longrightarrow> state_ok (snd (alloc s m))"
  by (auto simp: state_ok_def node_at_def alloc_def nth_append split: option.splits if_splits)

lemma state_ok_push: "state_ok s \<Longrightarrow> Json_push s a x = Inr s' \<Longrightarrow> state_ok s'"
  by (auto simp: Json_push_def state_ok_def node_at_def nth_list_update
      split: option.splits node.splits if_splits)

lemma state_ok_assign_bool: "state_ok s \<Longrightarrow> state_ok (snd (Json_assign_bool s a v))"
  by (auto simp: Json_assign_bool_def BooleanNode_True_def BooleanNode_False_def state_ok_def
      alloc_def node_at_def nth_append split: option.splits if_splits)

lemma state_ok_key:
  "state_ok s \<Longrightarrow> Json_key s a k = Inr (r, s') \<Longrightarrow> state_ok s'"
  by (auto simp: Json_key_def Json_default_def alloc_def state_ok_def node_at_def
      nth_list_update nth_append split: option.splits node.splits if_splits)

lemma state_ok_demo: "state_ok demo_state"
  by (simp add: state_ok_def demo_state_def node_at_def)

lemma overflow_state_heap:
  "overflow_state = \<lparr>heap = [NullNode, IntegerNode 0, IntegerNode (- 2147483648),
      IntegerNode 2147483647, IntegerNode (- 1)],
     NullNode_instance = 0, True_instance = None, False_instance = None\<rparr>"
  by (simp add: overflow_state_def Json_int_def alloc_def init_state_def)

subsection \<open>Machine integers\<close>

lemma size_t_of_int_eq: "size_t_of_int i = nat (sint i mod 18446744073709551616)"
  unfolding size_t_of_int_def unat_eq_nat_uint scast_eq uint_word_of_int by simp

lemma size_t_of_int_nonneg: "0 \<le> sint i \<Longrightarrow> size_t_of_int i = nat (sint i)"
  using sint_cint_lt [of i] by (simp add: size_t_of_int_eq)

lemma size_t_of_int_neg:
  assumes neg: "sint i < 0"
  shows "9223372036854775808 \<le> size_t_of_int i"
proof -
  have "sint i mod 18446744073709551616 = (sint i + 18446744073709551616) mod 18446744073709551616"
    by simp
  also have "\<dots> = sint i + 18446744073709551616"
    using sint_cint_ge [of i] neg by (intro mod_pos_pos_trivial) auto
  finally show ?thesis
    using sint_cint_ge [of i] by (simp add: size_t_of_int_eq)
qed

lemma sint_of_nat_cint: "n < 2147483648 \<Longrightarrow> sint (of_nat n :: cint) = int n"
  by (simp add: signed_of_nat signed_take_bit_int_eq_self)

lemma sint_size_diff:
  "n < 2147483648 \<Longrightarrow> m < 2147483648 \<Longrightarrow>
   sint ((of_nat n :: cint) - of_nat m) = int n - int m"
  by (simp add: sint_word_ariths sint_of_nat_cint signed_take_bit_int_eq_self)

lemma of_nat_cint_inj:
  assumes "n < 2147483648" "m < 2147483648"
  shows "((of_nat n :: cint) = of_nat m) = (n = m)"
proof
  assume "(of_nat n :: cint) = of_nat m"
  then have "sint (of_nat n :: cint) = sint (of_nat m :: cint)" by simp
  then show "n = m" using assms by (simp add: sint_of_nat_cint)
next
  assume "n = m" then show "(of_nat n :: cint) = of_nat m" by simp
qed

subsection \<open>Default construction\<close>

text \<open>
  C9. A default-constructed handle has kind Object, and the mapping of its node has no
  entry; its kind is not Null.
\<close>

theorem default_is_empty_object:
  "Json_type (snd (Json_default s)) (fst (Json_default s)) = Inr Object \<and>
   Object_data (snd (Json_default s)) (fst (Json_default s)) = Inr [] \<and>
   Json_type (snd (Json_default s)) (fst (Json_default s)) \<noteq> Inr Null"
  by (simp add: Json_default_def Json_type_def Object_data_def node_at_alloc_new)

theorem default_is_empty_object_witness:
  "Json_type (snd (Json_default init_state)) (fst (Json_default init_state)) = Inr Object \<and>
   Object_data (snd (Json_default init_state)) (fst (Json_default init_state)) = Inr [] \<and>
   fst (Json_default init_state) = 1"
  using default_is_empty_object [of init_state]
  by (simp add: Json_default_def alloc_def init_state_def)

subsection \<open>Shared mutation and detaching assignment\<close>

lemma push_shared:
  assumes a: "node_at s a = Some (ArrayNode xs)"
  shows "\<exists>s'. Json_push s a x = Inr s' \<and>
           node_at s' a = Some (ArrayNode (xs @ [x])) \<and>
           Json_length s' a = Inr (of_nat (length xs) + 1) \<and>
           (length xs < 2147483648 \<longrightarrow> Json_at s' a (of_nat (length xs)) = Inr x)"
proof -
  let ?s' = "s\<lparr>heap := (heap s)[a := ArrayNode (xs @ [x])]\<rparr>"
  from a have lt: "a < length (heap s)" by (auto simp: node_at_def split: if_splits)
  have p: "Json_push s a x = Inr ?s'" by (simp add: Json_push_def a)
  have n: "node_at ?s' a = Some (ArrayNode (xs @ [x]))" using lt by (simp add: node_at_def)
  have l: "Json_length ?s' a = Inr (of_nat (length xs) + 1)" by (simp add: Json_length_def n)
  have e: "length xs < 2147483648 \<Longrightarrow> Json_at ?s' a (of_nat (length xs)) = Inr x"
    by (simp add: Json_at_def n vector_at_def size_t_of_int_nonneg sint_of_nat_cint)
  show ?thesis using p n l e by blast
qed

lemma push_frame:
  "Json_push s a x = Inr s' \<Longrightarrow> c \<noteq> a \<Longrightarrow> node_at s' c = node_at s c"
  by (auto simp: Json_push_def node_at_def split: option.splits node.splits)

lemma assign_bool_result:
  assumes ok: "state_ok s"
  shows "old_nodes_kept s (snd (Json_assign_bool s a v)) \<and>
         node_at (snd (Json_assign_bool s a v)) (fst (Json_assign_bool s a v)) = Some (BooleanNode v) \<and>
         (if v then True_instance (snd (Json_assign_bool s a v))
          else False_instance (snd (Json_assign_bool s a v))) = Some (fst (Json_assign_bool s a v))"
  using ok
  by (auto simp: Json_assign_bool_def BooleanNode_True_def BooleanNode_False_def state_ok_def
      old_nodes_kept_def alloc_def node_at_def split: option.splits)

lemma assign_bool_reuse:
  "(if v then True_instance s else False_instance s) = Some t \<Longrightarrow>
   Json_assign_bool s a v = (t, s)"
  by (auto simp: Json_assign_bool_def BooleanNode_True_def BooleanNode_False_def split: if_splits)

lemma assign_bool_shared:
  assumes ok: "state_ok s"
  shows "Json_assign_bool (snd (Json_assign_bool s a v)) b v =
         (fst (Json_assign_bool s a v), snd (Json_assign_bool s a v))"
  using assign_bool_result [OF ok, of a v] assign_bool_reuse by blast

text \<open>
  C1, as the code has it. Let \<open>b\<close> be a copy of the handle \<open>a\<close>. When the node is an
  array, \<open>a.push(x)\<close> is seen through \<open>b\<close>: the array read through \<open>b\<close> is one longer and
  its last element is \<open>x\<close>. After a scalar assignment to \<open>a\<close>, \<open>b\<close> still has its old
  kind and payload, and \<open>a\<close> is rebound: for \<open>int\<close>, \<open>double\<close> and string to a node that
  did not exist before; for \<open>nullptr\<close> to the static Null instance, which existed before;
  for \<open>bool\<close> to the static instance of that value, which is created by the first such
  assignment and reused by every later one.
\<close>

theorem push_shared_assign_detaches:
  assumes ok: "state_ok s" and copy: "b = a" and n: "node_at s a = Some n"
  shows
   "(\<forall>xs. n = ArrayNode xs \<longrightarrow>
       (\<exists>s'. Json_push s a x = Inr s' \<and>
          node_at s' b = Some (ArrayNode (xs @ [x])) \<and>
          Json_length s' b = Inr (of_nat (length xs) + 1) \<and>
          (length xs < 2147483648 \<longrightarrow> Json_at s' b (of_nat (length xs)) = Inr x))) \<and>
    (node_at (snd (Json_assign_nullptr s a)) b = Some n \<and>
       fst (Json_assign_nullptr s a) = NullNode_get s \<and>
       node_at s (fst (Json_assign_nullptr s a)) = Some NullNode \<and>
       node_at (snd (Json_assign_nullptr s a)) (fst (Json_assign_nullptr s a)) =
         Some NullNode) \<and>
    (node_at (snd (Json_assign_bool s a bv)) b = Some n \<and>
       node_at (snd (Json_assign_bool s a bv)) (fst (Json_assign_bool s a bv)) =
         Some (BooleanNode bv) \<and>
       (if bv then True_instance (snd (Json_assign_bool s a bv))
        else False_instance (snd (Json_assign_bool s a bv))) =
         Some (fst (Json_assign_bool s a bv)) \<and>
       (\<forall>t. (if bv then True_instance s else False_instance s) = Some t \<longrightarrow>
            fst (Json_assign_bool s a bv) = t)) \<and>
    (node_at (snd (Json_assign_int s a iv)) b = Some n \<and>
       node_at s (fst (Json_assign_int s a iv)) = None \<and>
       node_at (snd (Json_assign_int s a iv)) (fst (Json_assign_int s a iv)) =
         Some (IntegerNode iv)) \<and>
    (node_at (snd (Json_assign_double s a dv)) b = Some n \<and>
       node_at s (fst (Json_assign_double s a dv)) = None \<and>
       node_at (snd (Json_assign_double s a dv)) (fst (Json_assign_double s a dv)) =
         Some (NumberNode dv)) \<and>
    (node_at (snd (Json_assign_string s a str)) b = Some n \<and>
       node_at s (fst (Json_assign_string s a str)) = None \<and>
       node_at (snd (Json_assign_string s a str)) (fst (Json_assign_string s a str)) =
         Some (StringNode str))"
proof -
  have push: "\<forall>xs. n = ArrayNode xs \<longrightarrow>
       (\<exists>s'. Json_push s a x = Inr s' \<and>
          node_at s' b = Some (ArrayNode (xs @ [x])) \<and>
          Json_length s' b = Inr (of_nat (length xs) + 1) \<and>
          (length xs < 2147483648 \<longrightarrow> Json_at s' b (of_nat (length xs)) = Inr x))"
    using n push_shared [of s a _ x] by (simp add: copy)
  have null: "node_at (snd (Json_assign_nullptr s a)) b = Some n \<and>
       fst (Json_assign_nullptr s a) = NullNode_get s \<and>
       node_at s (fst (Json_assign_nullptr s a)) = Some NullNode \<and>
       node_at (snd (Json_assign_nullptr s a)) (fst (Json_assign_nullptr s a)) =
         Some NullNode"
    using ok n copy by (simp add: Json_assign_nullptr_def NullNode_get_def state_ok_def)
  have bool1: "old_nodes_kept s (snd (Json_assign_bool s a bv)) \<and>
       node_at (snd (Json_assign_bool s a bv)) (fst (Json_assign_bool s a bv)) =
         Some (BooleanNode bv) \<and>
       (if bv then True_instance (snd (Json_assign_bool s a bv))
        else False_instance (snd (Json_assign_bool s a bv))) =
         Some (fst (Json_assign_bool s a bv))"
    by (rule assign_bool_result [OF ok])
  then have bool2: "node_at (snd (Json_assign_bool s a bv)) b = Some n"
    using n copy old_nodes_kept_node_at by blast
  have bool3: "\<forall>t. (if bv then True_instance s else False_instance s) = Some t \<longrightarrow>
            fst (Json_assign_bool s a bv) = t"
    using assign_bool_reuse [of bv s _ a] by simp
  have int: "node_at (snd (Json_assign_int s a iv)) b = Some n \<and>
       node_at s (fst (Json_assign_int s a iv)) = None \<and>
       node_at (snd (Json_assign_int s a iv)) (fst (Json_assign_int s a iv)) =
         Some (IntegerNode iv)"
    using n copy
    by (simp add: Json_assign_int_def node_at_alloc_old node_at_alloc_new alloc_fresh)
  have double: "node_at (snd (Json_assign_double s a dv)) b = Some n \<and>
       node_at s (fst (Json_assign_double s a dv)) = None \<and>
       node_at (snd (Json_assign_double s a dv)) (fst (Json_assign_double s a dv)) =
         Some (NumberNode dv)"
    using n copy
    by (simp add: Json_assign_double_def node_at_alloc_old node_at_alloc_new alloc_fresh)
  have string: "node_at (snd (Json_assign_string s a str)) b = Some n \<and>
       node_at s (fst (Json_assign_string s a str)) = None \<and>
       node_at (snd (Json_assign_string s a str)) (fst (Json_assign_string s a str)) =
         Some (StringNode str)"
    using n copy
    by (simp add: Json_assign_string_def node_at_alloc_old node_at_alloc_new alloc_fresh)
  show ?thesis
    using push null bool1 bool2 bool3 int double string by blast
qed

theorem push_shared_assign_detaches_witness:
  "state_ok demo_state \<and> node_at demo_state 4 = Some (ArrayNode [1, 2]) \<and>
   (\<exists>s'. Json_push demo_state 4 3 = Inr s' \<and>
      node_at s' 4 = Some (ArrayNode [1, 2, 3]) \<and>
      Json_length s' 4 = Inr 3 \<and> Json_at s' 4 2 = Inr 3) \<and>
   fst (Json_assign_nullptr demo_state 4) = 0 \<and>
   node_at (snd (Json_assign_nullptr demo_state 4)) 4 = Some (ArrayNode [1, 2]) \<and>
   node_at (snd (Json_assign_bool demo_state 4 True)) 4 = Some (ArrayNode [1, 2]) \<and>
   fst (Json_assign_bool demo_state 4 True) = 11 \<and>
   node_at (snd (Json_assign_int demo_state 4 5)) 4 = Some (ArrayNode [1, 2]) \<and>
   fst (Json_assign_int demo_state 4 5) = 11 \<and>
   node_at (snd (Json_assign_int demo_state 4 5)) 11 = Some (IntegerNode 5) \<and>
   node_at (snd (Json_assign_double demo_state 4 (Finite 2))) 4 = Some (ArrayNode [1, 2]) \<and>
   node_at (snd (Json_assign_string demo_state 4 ''x'')) 4 = Some (ArrayNode [1, 2])"
proof -
  have n: "node_at demo_state 4 = Some (ArrayNode [1, 2])"
    by (simp add: demo_state_def node_at_def)
  have g: "NullNode_get demo_state = 0" by (simp add: NullNode_get_def demo_state_def)
  have fb: "fst (Json_assign_bool demo_state 4 True) = 11"
    by (simp add: Json_assign_bool_def BooleanNode_True_def alloc_def demo_state_def)
  have fi: "fst (Json_assign_int demo_state 4 5) = 11"
    by (simp add: Json_assign_int_def alloc_def demo_state_def)
  show ?thesis
    using n state_ok_demo fb
      push_shared_assign_detaches [OF state_ok_demo refl n, of 3 True 5 "Finite 2" "''x''"]
    by (simp add: g fi)
qed

text \<open>
  C1 as stated has every scalar assignment rebind \<open>a\<close> to a newly created node. Assigning
  \<open>nullptr\<close> to a handle of the Null instance rebinds it to the node it already had: that
  node existed before, and the store is unchanged.
\<close>

theorem assign_nullptr_not_new:
  "fst (Json_assign_nullptr init_state (Json_nullptr init_state)) = Json_nullptr init_state \<and>
   node_at init_state (fst (Json_assign_nullptr init_state (Json_nullptr init_state))) =
     Some NullNode \<and>
   node_at init_state (fst (Json_assign_nullptr init_state (Json_nullptr init_state))) \<noteq>
     None \<and>
   snd (Json_assign_nullptr init_state (Json_nullptr init_state)) = init_state"
  by (simp add: Json_assign_nullptr_def Json_nullptr_def NullNode_get_def init_state_def
      node_at_def)

subsection \<open>Assignment through a reference\<close>

text \<open>
  An assignment to an element of a container writes the node of the container. A copy of
  the element taken before keeps its node, unless that node is the container itself.
\<close>

lemma map_of_map_assign:
  "map_of (map_assign key p m) k = (if k = key \<and> map_of m key \<noteq> None then Some p else map_of m k)"
  by (induction m) auto

lemma reference_get_container:
  "reference_get s r = Inr a \<Longrightarrow> node_at s (reference_container r) \<noteq> None"
  by (auto simp: reference_get_def reference_container_def
      split: reference.splits option.splits node.splits if_splits)

lemma reference_get_kept:
  assumes g: "reference_get s r = Inr a" and k: "old_nodes_kept s s1"
  shows "reference_get s1 r = Inr a"
proof -
  from g obtain c where c: "node_at s (reference_container r) = Some c"
    using reference_get_container by fastforce
  then have "node_at s1 (reference_container r) = Some c"
    using k old_nodes_kept_node_at by blast
  with g c show ?thesis
    by (auto simp: reference_get_def reference_container_def split: reference.splits)
qed

lemma reference_set_writes:
  assumes g: "reference_get s r = Inr a"
  shows "\<exists>s'. reference_set s r p = Inr s' \<and> reference_get s' r = Inr p \<and>
           (\<forall>c. c \<noteq> reference_container r \<longrightarrow> node_at s' c = node_at s c)"
proof (cases r)
  case (ArraySlot d i)
  with g obtain xs where d: "node_at s d = Some (ArrayNode xs)" and i: "i < length xs"
    by (auto simp: reference_get_def split: option.splits node.splits if_splits)
  from d have lt: "d < length (heap s)" by (auto simp: node_at_def split: if_splits)
  let ?s' = "s\<lparr>heap := (heap s)[d := ArrayNode (xs[i := p])]\<rparr>"
  have "reference_set s r p = Inr ?s'" by (simp add: reference_set_def ArraySlot d i)
  moreover have "reference_get ?s' r = Inr p"
    using lt i by (simp add: reference_get_def ArraySlot node_at_def)
  moreover have "\<forall>c. c \<noteq> reference_container r \<longrightarrow> node_at ?s' c = node_at s c"
    by (simp add: reference_container_def ArraySlot node_at_def)
  ultimately show ?thesis by blast
next
  case (ObjectSlot d key)
  with g obtain m where d: "node_at s d = Some (ObjectNode m)" and key: "map_of m key = Some a"
    by (auto simp: reference_get_def split: option.splits node.splits)
  from d have lt: "d < length (heap s)" by (auto simp: node_at_def split: if_splits)
  let ?s' = "s\<lparr>heap := (heap s)[d := ObjectNode (map_assign key p m)]\<rparr>"
  have "reference_set s r p = Inr ?s'" by (simp add: reference_set_def ObjectSlot d key)
  moreover have "reference_get ?s' r = Inr p"
    using lt key by (simp add: reference_get_def ObjectSlot node_at_def map_of_map_assign)
  moreover have "\<forall>c. c \<noteq> reference_container r \<longrightarrow> node_at ?s' c = node_at s c"
    by (simp add: reference_container_def ObjectSlot node_at_def)
  ultimately show ?thesis by blast
qed

lemma assign_through_keeps_copy:
  assumes g: "reference_get s r = Inr a" and n: "node_at s a = Some n"
    and apart: "reference_container r \<noteq> a" and k: "old_nodes_kept s s1"
  shows "\<exists>s'. assign_through r (p, s1) = Inr (p, s') \<and> reference_get s' r = Inr p \<and>
           node_at s' a = Some n \<and>
           (p \<noteq> reference_container r \<longrightarrow> node_at s' p = node_at s1 p)"
proof -
  have g1: "reference_get s1 r = Inr a" by (rule reference_get_kept [OF g k])
  have n1: "node_at s1 a = Some n" by (rule old_nodes_kept_node_at [OF k n])
  from reference_set_writes [OF g1, of p]
  obtain s' where w: "reference_set s1 r p = Inr s'" and r: "reference_get s' r = Inr p"
    and f: "\<forall>c. c \<noteq> reference_container r \<longrightarrow> node_at s' c = node_at s1 c"
    by blast
  have "assign_through r (p, s1) = Inr (p, s')" by (simp add: assign_through_def w)
  moreover have "node_at s' a = Some n" using f apart n1 by simp
  ultimately show ?thesis using r f by blast
qed

text \<open>
  \<open>arr[0] = 5\<close> on the array \<open>[1,2]\<close> of \<open>demo_state\<close>: the node of the array now holds
  the new handle in place of the old one, whose node is as it was.
\<close>

lemma slot_assign_example:
  "Json_index demo_state 4 0 = Inr (ArraySlot 4 0) \<and>
   reference_get demo_state (ArraySlot 4 0) = Inr 1 \<and>
   map_sum id fst (assign_through (ArraySlot 4 0) (Json_assign_int demo_state 1 5)) = Inr 11 \<and>
   map_sum id (\<lambda>res. node_at (snd res) 4)
     (assign_through (ArraySlot 4 0) (Json_assign_int demo_state 1 5)) =
     Inr (Some (ArrayNode [11, 2])) \<and>
   map_sum id (\<lambda>res. node_at (snd res) 1)
     (assign_through (ArraySlot 4 0) (Json_assign_int demo_state 1 5)) =
     Inr (Some (IntegerNode 1)) \<and>
   map_sum id (\<lambda>res. node_at (snd res) 11)
     (assign_through (ArraySlot 4 0) (Json_assign_int demo_state 1 5)) =
     Inr (Some (IntegerNode 5))"
  by (simp add: Json_index_def reference_get_def assign_through_def reference_set_def
      Json_assign_int_def alloc_def demo_state_def node_at_def size_t_of_int_def)

subsection \<open>The static instances\<close>

lemma nullptr_ctor_shared:
  "Json_nullptr s = NullNode_instance s \<and>
   NullNode_instance (snd (alloc s n)) = NullNode_instance s \<and>
   NullNode_instance (snd (Json_assign_bool s a v)) = NullNode_instance s"
  by (simp add: Json_nullptr_def NullNode_get_def alloc_def Json_assign_bool_def
      BooleanNode_True_def BooleanNode_False_def split: option.splits)

text \<open>
  C2. Two handles constructed from \<open>nullptr\<close> hold the one Null instance, and
  \<open>operator=(bool)\<close> takes the static Boolean instances (\<open>assign_bool_shared\<close>). The
  constructor \<open>Json(bool)\<close> does not: it calls \<open>std::make_shared\<close>, so two handles
  constructed from \<open>true\<close> hold two different nodes, both with the payload \<open>true\<close>.
\<close>

theorem bool_ctor_duplicates:
  "fst (Json_bool init_state True) = 1 \<and>
   fst (Json_bool (snd (Json_bool init_state True)) True) = 2 \<and>
   node_at (snd (Json_bool (snd (Json_bool init_state True)) True)) 1 = Some (BooleanNode True) \<and>
   node_at (snd (Json_bool (snd (Json_bool init_state True)) True)) 2 = Some (BooleanNode True)"
  by (simp add: Json_bool_def alloc_def init_state_def node_at_def)

subsection \<open>Reading an array element\<close>

text \<open>
  C5, as the code has it. Let the node of \<open>a\<close> be an array of fewer than \<open>2^63\<close>
  elements (a \<open>std::vector\<close> holds no more). \<open>at(i)\<close> with \<open>i < 0\<close> or \<open>i \<ge> length\<close>
  fails with the out-of-range error; with \<open>0 \<le> i < length\<close>, \<open>at(i)\<close> gives the
  element at position \<open>i\<close> and \<open>operator[](i)\<close> a reference to it. \<open>operator[]\<close> checks
  no range: out of range it raises no error, its behaviour is undefined.
\<close>

theorem array_read_checked:
  assumes a: "node_at s a = Some (ArrayNode xs)"
    and max_size: "length xs < 9223372036854775808"
  shows
   "(sint i < 0 \<or> int (length xs) \<le> sint i \<longrightarrow>
       Json_at s a i = Inl OutOfRange \<and> Json_index s a i = Inl UndefinedBehaviour) \<and>
    (0 \<le> sint i \<and> sint i < int (length xs) \<longrightarrow>
       Json_at s a i = Inr (xs ! nat (sint i)) \<and>
       Json_index s a i = Inr (ArraySlot a (nat (sint i))) \<and>
       reference_get s (ArraySlot a (nat (sint i))) = Inr (xs ! nat (sint i)))"
proof -
  have out: "\<not> size_t_of_int i < length xs" if "sint i < 0 \<or> int (length xs) \<le> sint i"
  proof (cases "sint i < 0")
    case True
    then show ?thesis using size_t_of_int_neg [of i] max_size by simp
  next
    case False
    then show ?thesis using that by (simp add: size_t_of_int_nonneg)
  qed
  have inside: "size_t_of_int i = nat (sint i) \<and> nat (sint i) < length xs"
    if "0 \<le> sint i \<and> sint i < int (length xs)"
    using that by (simp add: size_t_of_int_nonneg nat_less_iff)
  show ?thesis
    using out inside
    by (auto simp: Json_at_def Json_index_def reference_get_def vector_at_def a)
qed

theorem array_read_checked_witness:
  "node_at demo_state 5 = Some (ArrayNode [1, 2, 3]) \<and>
   Json_at demo_state 5 (- 1) = Inl OutOfRange \<and>
   Json_at demo_state 5 3 = Inl OutOfRange \<and>
   Json_at demo_state 5 2 = Inr 3 \<and>
   Json_index demo_state 5 2 = Inr (ArraySlot 5 2) \<and>
   reference_get demo_state (ArraySlot 5 2) = Inr 3"
proof -
  have n: "node_at demo_state 5 = Some (ArrayNode [1, 2, 3])"
    by (simp add: demo_state_def node_at_def)
  have m: "length [1::addr, 2, 3] < 9223372036854775808" by simp
  show ?thesis
    using n array_read_checked [OF n m, of "- 1"] array_read_checked [OF n m, of 3]
      array_read_checked [OF n m, of 2]
    by simp
qed

text \<open>
  C5 as stated has the indexed access fail with the out-of-range error too. On the
  two-element array of \<open>demo_state\<close>, \<open>at(2)\<close> gives that error and \<open>operator[](2)\<close>
  does not.
\<close>

theorem index_unchecked:
  "Json_length demo_state 4 = Inr 2 \<and>
   Json_at demo_state 4 2 = Inl OutOfRange \<and>
   Json_index demo_state 4 2 = Inl UndefinedBehaviour \<and>
   Json_index demo_state 4 2 \<noteq> Inl OutOfRange"
  by (simp add: demo_state_def Json_length_def Json_at_def Json_index_def node_at_def
      vector_at_def size_t_of_int_def)

subsection \<open>Keyed access\<close>

text \<open>
  C6. On an object, the read-only lookup of a key that the mapping does not hold gives
  the handle of the Null instance, whose kind is Null, and does not fail; the lookup of a
  key that it holds gives the mapped handle.
\<close>

theorem missing_key_is_null:
  assumes ok: "state_ok s" and a: "node_at s a = Some (ObjectNode m)"
  shows
   "(k \<notin> fst ` set m \<longrightarrow>
       Json_key_const s a k = Inr (NullNode_get s) \<and>
       Json_type s (NullNode_get s) = Inr Null) \<and>
    (\<forall>v. map_of m k = Some v \<longrightarrow> Json_key_const s a k = Inr v)"
proof -
  have absent: "Json_key_const s a k = Inr (NullNode_get s)" if "k \<notin> fst ` set m"
  proof -
    from that have "map_of m k = None" by (simp add: map_of_eq_None_iff)
    then show ?thesis by (simp add: Json_key_const_def a Json_nullptr_def)
  qed
  have null: "Json_type s (NullNode_get s) = Inr Null"
    using ok by (simp add: Json_type_def NullNode_get_def state_ok_def)
  have present: "Json_key_const s a k = Inr v" if "map_of m k = Some v" for v
    using that by (simp add: Json_key_const_def a)
  show ?thesis using absent null present by blast
qed

theorem missing_key_is_null_witness:
  "state_ok demo_state \<and> node_at demo_state 8 = Some (ObjectNode [(''a'', 1), (''b'', 2)]) \<and>
   Json_key_const demo_state 8 ''c'' = Inr 0 \<and> Json_type demo_state 0 = Inr Null \<and>
   Json_key_const demo_state 8 ''b'' = Inr 2"
proof -
  have n: "node_at demo_state 8 = Some (ObjectNode [(''a'', 1), (''b'', 2)])"
    by (simp add: demo_state_def node_at_def)
  have g: "NullNode_get demo_state = 0" by (simp add: NullNode_get_def demo_state_def)
  show ?thesis
    using n state_ok_demo missing_key_is_null [OF state_ok_demo n, of "''c''"]
      missing_key_is_null [OF state_ok_demo n, of "''b''"]
    by (simp add: g)
qed

lemma map_of_map_insert:
  "map_of m key = None \<Longrightarrow>
   map_of (map_insert key v m) k = (if k = key then Some v else map_of m k)"
  by (induction m) (auto split: if_splits)

lemma length_map_insert: "length (map_insert key v m) = Suc (length m)"
  by (induction m) auto

lemma set_map_insert: "set (map_insert key v m) = insert (key, v) (set m)"
  by (induction m) (auto split: if_splits)

lemma string_compare_refl: "string_compare a a = 0"
  by (induction a) auto

lemma string_compare_neg: "string_compare a b = - string_compare b a"
  by (induction a b rule: string_compare.induct) auto

lemma string_compare_eq: "string_compare a b = 0 \<Longrightarrow> a = b"
  by (induction a b rule: string_compare.induct) (auto split: if_splits)

lemma string_compare_trans:
  "string_compare a b < 0 \<Longrightarrow> string_compare b c < 0 \<Longrightarrow> string_compare a c < 0"
proof (induction a arbitrary: b c)
  case Nil
  then show ?case by (cases b; cases c) auto
next
  case (Cons x a)
  show ?case
  proof (cases b)
    case Nil
    with Cons.prems show ?thesis by simp
  next
    case b: (Cons y b')
    show ?thesis
    proof (cases c)
      case Nil
      with Cons.prems b show ?thesis by simp
    next
      case c: (Cons z c')
      with Cons.prems b Cons.IH [of b' c'] show ?thesis
        by (auto split: if_splits)
    qed
  qed
qed

text \<open>
  A new entry keeps the entries in the order of their keys.
\<close>

lemma keys_ordered_map_insert:
  "keys_ordered m \<Longrightarrow> key \<notin> fst ` set m \<Longrightarrow> keys_ordered (map_insert key v m)"
proof (induction m)
  case Nil
  then show ?case by (simp add: keys_ordered_def)
next
  case (Cons e m)
  obtain k w where e: "e = (k, w)" by (cases e)
  from Cons.prems have ord: "keys_ordered m"
    and above: "\<forall>q\<in>set m. string_compare k (fst q) < 0"
    and ne: "key \<noteq> k" and absent: "key \<notin> fst ` set m"
    by (auto simp: keys_ordered_def e)
  show ?case
  proof (cases "string_compare key k < 0")
    case True
    then have "\<forall>q\<in>set m. string_compare key (fst q) < 0"
      using above string_compare_trans by blast
    then show ?thesis using True Cons.prems(1) by (simp add: keys_ordered_def e)
  next
    case False
    have "string_compare key k \<noteq> 0" using ne string_compare_eq by blast
    then have "string_compare k key < 0"
      using False string_compare_neg [of k key] by simp
    then show ?thesis
      using False above Cons.IH [OF ord absent]
      by (simp add: keys_ordered_def e set_map_insert)
  qed
qed

text \<open>
  C10. On an object, the mutable \<open>operator[]\<close> with a key that the mapping does not
  hold returns a reference into the node of the object, to a handle of a node that did
  not exist before: an empty object, of kind Object. The node of the object now maps the
  key to that handle, has one entry more with the other keys mapped as before, and is
  not the node it was; the read-only lookup now finds the key. Before, the read-only
  lookup of the missing key gives the Null instance; it only reads the store.
\<close>

theorem mutable_key_inserts:
  assumes a: "node_at s a = Some (ObjectNode m)" and absent: "k \<notin> fst ` set m"
  shows
   "(case Json_key s a k of
       Inl e \<Rightarrow> False
     | Inr (r, s') \<Rightarrow>
         r = ObjectSlot a k \<and>
         (case reference_get s' r of
            Inl e \<Rightarrow> False
          | Inr v \<Rightarrow>
              node_at s v = None \<and>
              node_at s' v = Some (ObjectNode []) \<and>
              Json_type s' v = Inr Object \<and>
              node_at s' a = Some (ObjectNode (map_insert k v m)) \<and>
              map_of (map_insert k v m) k = Some v \<and>
              length (map_insert k v m) = Suc (length m) \<and>
              (\<forall>k'. k' \<noteq> k \<longrightarrow> map_of (map_insert k v m) k' = map_of m k') \<and>
              Json_key_const s' a k = Inr v \<and>
              node_at s' a \<noteq> node_at s a)) \<and>
    Json_key_const s a k = Inr (NullNode_get s)"
proof -
  let ?v = "length (heap s)"
  let ?s' = "s\<lparr>heap := (heap s @ [ObjectNode []])[a := ObjectNode (map_insert k ?v m)]\<rparr>"
  from a have lt: "a < length (heap s)" by (auto simp: node_at_def split: if_splits)
  from absent have none: "map_of m k = None" by (simp add: map_of_eq_None_iff)
  have key: "Json_key s a k = Inr (ObjectSlot a k, ?s')"
    by (simp add: Json_key_def a none Json_default_def alloc_def)
  have fresh: "node_at s ?v = None" by (simp add: node_at_def)
  have new: "node_at ?s' ?v = Some (ObjectNode [])"
    using lt by (simp add: node_at_def nth_list_update nth_append)
  have ty: "Json_type ?s' ?v = Inr Object" by (simp add: Json_type_def new)
  have upd: "node_at ?s' a = Some (ObjectNode (map_insert k ?v m))"
    using lt by (simp add: node_at_def)
  have look: "map_of (map_insert k ?v m) k = Some ?v"
    by (simp add: map_of_map_insert none)
  have len: "length (map_insert k ?v m) = Suc (length m)" by (rule length_map_insert)
  have ref: "reference_get ?s' (ObjectSlot a k) = Inr ?v"
    by (simp add: reference_get_def upd look)
  have const_after: "Json_key_const ?s' a k = Inr ?v"
    by (simp add: Json_key_const_def upd look)
  have const_before: "Json_key_const s a k = Inr (NullNode_get s)"
    by (simp add: Json_key_const_def a none Json_nullptr_def)
  have others: "\<forall>k'. k' \<noteq> k \<longrightarrow> map_of (map_insert k ?v m) k' = map_of m k'"
    by (simp add: map_of_map_insert none)
  have changed: "node_at ?s' a \<noteq> node_at s a"
  proof
    assume "node_at ?s' a = node_at s a"
    then have "map_insert k ?v m = m" by (simp add: upd a)
    then have "length (map_insert k ?v m) = length m" by simp
    then show False by (simp add: length_map_insert)
  qed
  show ?thesis
    unfolding key
    using fresh new ty upd look len ref const_after const_before others changed
    by simp
qed

lemma demo_key:
  "Json_key demo_state 7 ''b'' =
     Inr (ObjectSlot 7 ''b'',
          demo_state\<lparr>heap := (heap demo_state @ [ObjectNode []])
                         [7 := ObjectNode [(''a'', 1), (''b'', 11)]]\<rparr>)"
  by (simp add: Json_key_def demo_state_def node_at_def Json_default_def alloc_def)

theorem mutable_key_inserts_witness:
  "node_at demo_state 7 = Some (ObjectNode [(''a'', 1)]) \<and>
   ''b'' \<notin> fst ` set [(''a'', 1::addr)] \<and>
   Json_key_const demo_state 7 ''b'' = Inr 0 \<and>
   Json_key demo_state 7 ''b'' =
     Inr (ObjectSlot 7 ''b'',
          demo_state\<lparr>heap := (heap demo_state @ [ObjectNode []])
                         [7 := ObjectNode [(''a'', 1), (''b'', 11)]]\<rparr>) \<and>
   reference_get (demo_state\<lparr>heap := (heap demo_state @ [ObjectNode []])
                         [7 := ObjectNode [(''a'', 1), (''b'', 11)]]\<rparr>) (ObjectSlot 7 ''b'')
     = Inr 11 \<and>
   node_at demo_state 11 = None"
proof -
  have n: "node_at demo_state 7 = Some (ObjectNode [(''a'', 1)])"
    by (simp add: demo_state_def node_at_def)
  have absent: "''b'' \<notin> fst ` set [(''a'', 1::addr)]" by simp
  have g: "NullNode_get demo_state = 0" by (simp add: NullNode_get_def demo_state_def)
  have r: "reference_get (demo_state\<lparr>heap := (heap demo_state @ [ObjectNode []])
                         [7 := ObjectNode [(''a'', 1), (''b'', 11)]]\<rparr>) (ObjectSlot 7 ''b'')
     = Inr 11"
    by (simp add: reference_get_def node_at_def demo_state_def)
  show ?thesis
    using n absent r mutable_key_inserts [OF n absent]
    by (simp add: demo_key g r)
qed

subsection \<open>Views\<close>

text \<open>
  C7. For a handle \<open>v\<close> that owns a node, \<open>toArray()\<close> and \<open>toObject()\<close> return
  without an error: the view holds the node of \<open>v\<close> when its kind is the kind asked for,
  and the Null instance otherwise. \<open>toArray()\<close> on a string gives a handle of kind Null.
\<close>

theorem view_narrows_or_null:
  assumes ok: "state_ok s" and v: "node_at s v = Some n"
  shows
   "Json_toArray s v = Inr (if node_type n = Array then v else NullNode_get s) \<and>
    Json_toObject s v = Inr (if node_type n = Object then v else NullNode_get s) \<and>
    Json_type s (NullNode_get s) = Inr Null \<and>
    (node_type n = String \<longrightarrow>
       (\<exists>h. Json_toArray s v = Inr h \<and> Json_type s h = Inr Null))"
  using ok
  by (simp add: Json_toArray_def Array_ctor_def Json_toObject_def Object_ctor_def v
      Json_type_def NullNode_get_def state_ok_def)

theorem view_narrows_or_null_witness:
  "state_ok demo_state \<and> node_at demo_state 9 = Some (StringNode ''text'') \<and>
   Json_toArray demo_state 9 = Inr 0 \<and> Json_type demo_state 0 = Inr Null \<and>
   Json_toObject demo_state 9 = Inr 0 \<and>
   Json_toArray demo_state 4 = Inr 4 \<and> Json_toObject demo_state 7 = Inr 7"
proof -
  have n9: "node_at demo_state 9 = Some (StringNode ''text'')"
    by (simp add: demo_state_def node_at_def)
  have n4: "node_at demo_state 4 = Some (ArrayNode [1, 2])"
    by (simp add: demo_state_def node_at_def)
  have n7: "node_at demo_state 7 = Some (ObjectNode [(''a'', 1)])"
    by (simp add: demo_state_def node_at_def)
  have g: "NullNode_get demo_state = 0" by (simp add: NullNode_get_def demo_state_def)
  show ?thesis
    using n9 state_ok_demo view_narrows_or_null [OF state_ok_demo n9]
      view_narrows_or_null [OF state_ok_demo n4] view_narrows_or_null [OF state_ok_demo n7]
    by (simp add: g)
qed

subsection \<open>Comparison of containers\<close>

lemma array_compare_loop_spec:
  assumes l: "node_at s lhs = Some (ArrayNode xs)"
    and r: "node_at s rhs = Some (ArrayNode ys)"
    and len: "length xs = length ys" and small: "length xs < 2147483648"
  shows "i \<le> length xs \<Longrightarrow>
    array_compare_loop cmp s lhs rhs (of_nat i) = first_nonzero (map2 cmp (drop i xs) (drop i ys))"
proof (induction "length xs - i" arbitrary: i)
  case 0
  then have i: "i = length xs" by simp
  show ?case
    by (subst array_compare_loop.simps) (simp add: i Json_length_def l len)
next
  case (Suc k)
  then have i: "i < length xs" by simp
  then have i31: "i < 2147483648" using small by simp
  have less: "(of_nat i :: cint) <s of_nat (length xs)"
    using i i31 small by (simp add: word_sless_alt sint_of_nat_cint)
  have pos: "size_t_of_int (of_nat i) = i"
    using i31 by (simp add: size_t_of_int_nonneg sint_of_nat_cint)
  have atl: "Json_at s lhs (of_nat i) = Inr (xs ! i)"
    using i by (simp add: Json_at_def l vector_at_def pos)
  have atr: "Json_at s rhs (of_nat i) = Inr (ys ! i)"
    using i len by (simp add: Json_at_def r vector_at_def pos)
  have step: "(of_nat i :: cint) + 1 = of_nat (Suc i)" by simp
  have IH: "array_compare_loop cmp s lhs rhs (of_nat i + 1) =
      first_nonzero (map2 cmp (drop (Suc i) xs) (drop (Suc i) ys))"
    unfolding step using Suc.hyps i by (intro Suc.hyps(1)) auto
  have dx: "drop i xs = xs ! i # drop (Suc i) xs"
    using i by (simp add: Cons_nth_drop_Suc)
  have dy: "drop i ys = ys ! i # drop (Suc i) ys"
    using i len by (simp add: Cons_nth_drop_Suc)
  show ?case
    by (subst array_compare_loop.simps)
       (simp add: Json_length_def l less atl atr IH dx dy
          split: option.splits sum.splits)
qed

lemma array_compare_spec:
  assumes l: "node_at s lhs = Some (ArrayNode xs)"
    and r: "node_at s rhs = Some (ArrayNode ys)"
    and sx: "length xs < 2147483648" and sy: "length ys < 2147483648"
  shows "array_compare cmp s lhs rhs = spec_array_compare cmp xs ys"
proof (cases "length xs = length ys")
  case True
  have "array_compare_loop cmp s lhs rhs (of_nat 0) = first_nonzero (map2 cmp (drop 0 xs) (drop 0 ys))"
    using l r True sx by (intro array_compare_loop_spec) auto
  then show ?thesis
    using True by (simp add: array_compare_def spec_array_compare_def Json_length_def l r)
next
  case False
  have nz: "(of_nat (length xs) :: cint) \<noteq> of_nat (length ys)"
    using False sx sy by (simp add: of_nat_cint_inj)
  show ?thesis
    using False sx sy nz
    by (auto simp: array_compare_def spec_array_compare_def Json_length_def l r Let_def
        word_sless_alt sint_size_diff)
qed

lemma object_compare_loop_spec:
  "length lm = length rm \<Longrightarrow>
   object_compare_loop cmp lm rm =
     first_nonzero (concat (map2 (\<lambda>l r. [Some (Inr (string_compare (fst l) (fst r))),
                                          cmp (snd l) (snd r)]) lm rm))"
proof (induction lm arbitrary: rm)
  case Nil
  then show ?case by simp
next
  case (Cons l lm)
  then obtain r rm' where rm: "rm = r # rm'" by (cases rm) auto
  with Cons show ?case
    by (simp add: Let_def split: option.splits sum.splits)
qed

lemma object_compare_spec:
  assumes l: "node_at s lhs = Some (ObjectNode lm)"
    and r: "node_at s rhs = Some (ObjectNode rm)"
    and sx: "length lm < 2147483648" and sy: "length rm < 2147483648"
  shows "object_compare cmp s lhs rhs = spec_object_compare cmp lm rm"
proof (cases "length lm = length rm")
  case True
  then show ?thesis
    by (simp add: object_compare_def spec_object_compare_def Object_data_def l r
        object_compare_loop_spec)
next
  case False
  have nz: "(of_nat (length lm) :: cint) \<noteq> of_nat (length rm)"
    using False sx sy by (simp add: of_nat_cint_inj)
  show ?thesis
    using False sx sy nz
    by (auto simp: object_compare_def spec_object_compare_def Object_data_def l r Let_def
        word_sless_alt sint_size_diff)
qed

lemma compare_arrays:
  assumes "node_at s lhs = Some (ArrayNode xs)" "node_at s rhs = Some (ArrayNode ys)"
    and "length xs < 2147483648" "length ys < 2147483648"
  shows "compare (Suc fuel) s lhs rhs = spec_array_compare (compare fuel s) xs ys"
  using assms
  by (simp add: Json_type_def Json_toArray_def Array_ctor_def array_compare_spec)

lemma compare_objects:
  assumes "node_at s lhs = Some (ObjectNode lm)" "node_at s rhs = Some (ObjectNode rm)"
    and "length lm < 2147483648" "length rm < 2147483648"
  shows "compare (Suc fuel) s lhs rhs = spec_object_compare (compare fuel s) lm rm"
  using assms
  by (simp add: Json_type_def Json_toObject_def Object_ctor_def object_compare_spec)

text \<open>
  C8, as the code has it. \<open>length()\<close> returns the size as an \<open>int\<close>, and
  \<open>object_compare\<close> casts the sizes to \<open>int\<close>. On two arrays of fewer than \<open>2^31\<close>
  elements each, \<open>compare\<close> puts the shorter one first; on equal lengths it compares the elements in
  index order and returns the first result that is not 0, else 0. On two objects of fewer
  than \<open>2^31\<close> entries each it puts the one with fewer entries first; on equal counts it walks the two entry sequences in
  key order side by side, compares the keys, then the values, and returns the first
  result that is not 0, else 0.
\<close>

theorem compare_containers_spec:
  "(node_at s lhs = Some (ArrayNode xs) \<and> node_at s rhs = Some (ArrayNode ys) \<and>
      length xs < 2147483648 \<and> length ys < 2147483648 \<longrightarrow>
      compare (Suc fuel) s lhs rhs = spec_array_compare (compare fuel s) xs ys) \<and>
   (node_at s lhs = Some (ObjectNode lm) \<and> node_at s rhs = Some (ObjectNode rm) \<and>
      length lm < 2147483648 \<and> length rm < 2147483648 \<longrightarrow>
      compare (Suc fuel) s lhs rhs = spec_object_compare (compare fuel s) lm rm)"
  using compare_arrays [of s lhs xs rhs ys fuel] compare_objects [of s lhs lm rhs rm fuel]
  by blast

lemma demo_compare_1_1: "compare (Suc 0) demo_state (Suc 0) (Suc 0) = Some (Inr 0)"
  by (simp add: demo_state_def Json_type_def node_at_def both_def IntegerNode_value_def
      number_compare_IntegerNode_def)

lemma demo_compare_3_2: "compare (Suc 0) demo_state 3 2 = Some (Inr 1)"
  by (simp add: demo_state_def Json_type_def node_at_def both_def IntegerNode_value_def
      number_compare_IntegerNode_def word_sless_alt)

lemma demo_compare_1_2: "compare (Suc 0) demo_state (Suc 0) 2 = Some (Inr (- 1))"
  by (simp add: demo_state_def Json_type_def node_at_def both_def IntegerNode_value_def
      number_compare_IntegerNode_def word_sless_alt)

theorem compare_containers_spec_witness:
  "compare (Suc (Suc 0)) demo_state 4 5 = Some (Inr (- 1)) \<and>
   compare (Suc (Suc 0)) demo_state 6 4 = Some (Inr 1) \<and>
   compare (Suc (Suc 0)) demo_state 7 8 = Some (Inr (- 1)) \<and>
   compare (Suc (Suc 0)) demo_state 7 10 = Some (Inr (- 1))"
proof -
  have n4: "node_at demo_state 4 = Some (ArrayNode [1, 2])"
    and n5: "node_at demo_state 5 = Some (ArrayNode [1, 2, 3])"
    and n6: "node_at demo_state 6 = Some (ArrayNode [1, 3])"
    and n7: "node_at demo_state 7 = Some (ObjectNode [(''a'', 1)])"
    and n8: "node_at demo_state 8 = Some (ObjectNode [(''a'', 1), (''b'', 2)])"
    and n10: "node_at demo_state 10 = Some (ObjectNode [(''a'', 2)])"
    by (simp_all add: demo_state_def node_at_def)
  have a: "compare (Suc (Suc 0)) demo_state 4 5 = Some (Inr (- 1))"
    using compare_containers_spec [of demo_state 4 "[1, 2]" 5 "[1, 2, 3]" "Suc 0"] n4 n5
    by (simp add: spec_array_compare_def del: compare.simps)
  have b: "compare (Suc (Suc 0)) demo_state 6 4 = Some (Inr 1)"
    using compare_containers_spec [of demo_state 6 "[1, 3]" 4 "[1, 2]" "Suc 0"] n4 n6
    by (simp add: spec_array_compare_def demo_compare_1_1 demo_compare_3_2 del: compare.simps)
  have c: "compare (Suc (Suc 0)) demo_state 7 8 = Some (Inr (- 1))"
    using compare_containers_spec [of demo_state 7 _ 8 _ "Suc 0" "[(''a'', 1)]"
        "[(''a'', 1), (''b'', 2)]"] n7 n8
    by (simp add: spec_object_compare_def del: compare.simps)
  have d: "compare (Suc (Suc 0)) demo_state 7 10 = Some (Inr (- 1))"
    using compare_containers_spec [of demo_state 7 _ 10 _ "Suc 0" "[(''a'', 1)]"
        "[(''a'', 2)]"] n7 n10
    by (simp add: spec_object_compare_def demo_compare_1_2 del: compare.simps)
  show ?thesis using a b c d by simp
qed

text \<open>
  C8 as stated holds for every two arrays and every two objects. An array of \<open>2^31\<close>
  elements has the length \<open>-2^31\<close> as an \<open>int\<close>: \<open>compare\<close> puts it before the empty
  array, which is the shorter one, and likewise an object of \<open>2^31\<close> entries before the
  empty object.
\<close>

theorem compare_size_truncated:
  "node_at big_state 1 = Some (ArrayNode (replicate 2147483648 0)) \<and>
   node_at big_state 2 = Some (ArrayNode []) \<and>
   length ([] :: addr list) < length (replicate 2147483648 (0 :: addr)) \<and>
   compare (Suc 0) big_state 1 2 = Some (Inr (- 1)) \<and>
   spec_array_compare (compare 0 big_state) (replicate 2147483648 0) [] = Some (Inr 1) \<and>
   node_at big_state 3 = Some (ObjectNode (map (\<lambda>i. (big_key i, 0)) [0..<2147483648])) \<and>
   node_at big_state 4 = Some (ObjectNode []) \<and>
   compare (Suc 0) big_state 3 4 = Some (Inr (- 1)) \<and>
   spec_object_compare (compare 0 big_state) (map (\<lambda>i. (big_key i, 0)) [0..<2147483648]) [] =
     Some (Inr 1)"
  by (simp add: big_state_def node_at_def Json_type_def Json_toArray_def Array_ctor_def
      Json_toObject_def Object_ctor_def array_compare_def object_compare_def
      Json_length_def Object_data_def spec_array_compare_def spec_object_compare_def
      word_sless_alt del: upt_rec_numeral)

subsection \<open>Comparison: what holds\<close>

text \<open>
  Values of two kinds are ordered by the enumeration of the kinds.
\<close>

lemma compare_kind_order:
  assumes "node_at s lhs = Some nl" "node_at s rhs = Some rn"
    and "node_type nl \<noteq> node_type rn"
  shows "compare (Suc fuel) s lhs rhs =
    Some (Inr (if JsonType_int (node_type nl) < JsonType_int (node_type rn) then - 1 else 1))"
proof -
  have "JsonType_int (node_type nl) \<noteq> JsonType_int (node_type rn)"
    using assms(3) by (cases "node_type nl"; cases "node_type rn") auto
  then show ?thesis
    using assms(1,2) by (auto simp: Json_type_def Let_def)
qed

lemma first_nonzero_returns:
  "(\<And>r. r \<in> set rs \<Longrightarrow> \<exists>c. r = Some (Inr c)) \<Longrightarrow> \<exists>c. first_nonzero rs = Some (Inr c)"
proof (induction rs)
  case Nil
  then show ?case by simp
next
  case (Cons r rs)
  then obtain c where r: "r = Some (Inr c)" by auto
  from Cons have "\<exists>c. first_nonzero rs = Some (Inr c)" by auto
  then show ?case by (simp add: r)
qed

lemma first_nonzero_zero:
  "(\<And>r. r \<in> set rs \<Longrightarrow> r = Some (Inr 0)) \<Longrightarrow> first_nonzero rs = Some (Inr 0)"
proof (induction rs)
  case Nil
  then show ?case by simp
next
  case (Cons r rs)
  have r: "r = Some (Inr 0)" using Cons.prems [of r] by simp
  have "first_nonzero rs = Some (Inr 0)" using Cons by simp
  then show ?case by (simp add: r)
qed

lemma number_compare_NumberNode_refl: "number_compare_NumberNode x x = 0"
  by (cases x) (auto simp: number_compare_NumberNode_def)

lemma compare_scalar_returns:
  assumes a: "node_at s a = Some na" and b: "node_at s b = Some nb"
    and ty: "node_type na = node_type nb"
    and sa: "node_type na \<noteq> Array" "node_type na \<noteq> Object"
  shows "\<exists>c. compare (Suc n) s a b = Some (Inr c)"
  using ty sa
  by (cases na; cases nb)
     (simp_all add: Json_type_def a b both_def BooleanNode_value_def IntegerNode_value_def
        NumberNode_value_def Json_toString_def)

text \<open>
  \<open>compare\<close> returns: on values of depth at most \<open>n\<close>, \<open>n\<close> nested calls are enough
  and no error occurs.
\<close>

lemma compare_returns:
  "well_formed n s a \<Longrightarrow> well_formed n s b \<Longrightarrow> \<exists>c. compare n s a b = Some (Inr c)"
proof (induction n arbitrary: a b)
  case 0
  then show ?case by simp
next
  case (Suc n)
  from Suc.prems obtain na nb where a: "node_at s a = Some na" and b: "node_at s b = Some nb"
    by (auto split: option.splits)
  show ?case
  proof (cases "node_type na = node_type nb")
    case False
    then show ?thesis using compare_kind_order [OF a b] by simp
  next
    case same: True
    show ?thesis
    proof (cases na)
      case (ArrayNode xs)
      with same obtain ys where nb: "nb = ArrayNode ys" by (cases nb) auto
      from Suc.prems a b ArrayNode nb
      have wx: "length xs < 2147483648" "list_all (well_formed n s) xs"
        and wy: "length ys < 2147483648" "list_all (well_formed n s) ys"
        by auto
      have eq: "compare (Suc n) s a b = spec_array_compare (compare n s) xs ys"
        using compare_arrays [of s a xs b ys n] a b ArrayNode nb wx(1) wy(1)
        by blast
      have "\<exists>c. r = Some (Inr c)" if "r \<in> set (map2 (compare n s) xs ys)" for r
      proof -
        from that obtain x y where "(x, y) \<in> set (zip xs ys)" "r = compare n s x y" by auto
        moreover then have "x \<in> set xs" "y \<in> set ys"
          by (auto dest: set_zip_leftD set_zip_rightD)
        ultimately show ?thesis
          using wx(2) wy(2) Suc.IH by (auto simp: list_all_iff)
      qed
      then have "\<exists>c. first_nonzero (map2 (compare n s) xs ys) = Some (Inr c)"
        by (rule first_nonzero_returns)
      then show ?thesis unfolding eq spec_array_compare_def by auto
    next
      case (ObjectNode lm)
      with same obtain rm where nb: "nb = ObjectNode rm" by (cases nb) auto
      from Suc.prems a b ObjectNode nb
      have wx: "length lm < 2147483648" "list_all (\<lambda>e. well_formed n s (snd e)) lm"
        and wy: "length rm < 2147483648" "list_all (\<lambda>e. well_formed n s (snd e)) rm"
        by auto
      have eq: "compare (Suc n) s a b = spec_object_compare (compare n s) lm rm"
        using compare_objects [of s a lm b rm n] a b ObjectNode nb wx(1) wy(1)
        by blast
      have "\<exists>c. r = Some (Inr c)"
        if "r \<in> set (concat (map2 (\<lambda>l r. [Some (Inr (string_compare (fst l) (fst r))),
                                     compare n s (snd l) (snd r)]) lm rm))" for r
      proof -
        from that obtain l r' where lr: "(l, r') \<in> set (zip lm rm)"
          and r: "r = Some (Inr (string_compare (fst l) (fst r'))) \<or>
                  r = compare n s (snd l) (snd r')"
          by auto
        from lr have "l \<in> set lm" "r' \<in> set rm"
          by (auto dest: set_zip_leftD set_zip_rightD)
        then have "\<exists>c. compare n s (snd l) (snd r') = Some (Inr c)"
          using wx(2) wy(2) Suc.IH by (auto simp: list_all_iff)
        with r show ?thesis by auto
      qed
      then have "\<exists>c. first_nonzero (concat (map2 (\<lambda>l r. [Some (Inr (string_compare (fst l) (fst r))),
                                     compare n s (snd l) (snd r)]) lm rm)) = Some (Inr c)"
        by (rule first_nonzero_returns)
      then show ?thesis unfolding eq spec_object_compare_def by auto
    qed (use compare_scalar_returns [OF a b same] in auto)
  qed
qed

text \<open>
  A value compares equal to itself.
\<close>

lemma compare_refl:
  "well_formed n s a \<Longrightarrow> compare n s a a = Some (Inr 0)"
proof (induction n arbitrary: a)
  case 0
  then show ?case by simp
next
  case (Suc n)
  from Suc.prems obtain na where a: "node_at s a = Some na"
    by (auto split: option.splits)
  show ?case
  proof (cases na)
    case (ArrayNode xs)
    from Suc.prems a ArrayNode
    have wx: "length xs < 2147483648" "list_all (well_formed n s) xs" by auto
    have eq: "compare (Suc n) s a a = spec_array_compare (compare n s) xs xs"
      using compare_arrays [of s a xs a xs n] a ArrayNode wx(1) by blast
    have "r = Some (Inr 0)" if "r \<in> set (map2 (compare n s) xs xs)" for r
      using that wx(2) Suc.IH by (auto simp: list_all_iff zip_same)
    then have "first_nonzero (map2 (compare n s) xs xs) = Some (Inr 0)"
      by (rule first_nonzero_zero)
    then show ?thesis unfolding eq spec_array_compare_def by simp
  next
    case (ObjectNode m)
    from Suc.prems a ObjectNode
    have wx: "length m < 2147483648" "list_all (\<lambda>e. well_formed n s (snd e)) m" by auto
    have eq: "compare (Suc n) s a a = spec_object_compare (compare n s) m m"
      using compare_objects [of s a m a m n] a ObjectNode wx(1) by blast
    have "r = Some (Inr 0)"
      if "r \<in> set (concat (map2 (\<lambda>l r. [Some (Inr (string_compare (fst l) (fst r))),
                                     compare n s (snd l) (snd r)]) m m))" for r
    proof -
      from that obtain e where e: "e \<in> set m"
        and r: "r = Some (Inr (string_compare (fst e) (fst e))) \<or>
                r = compare n s (snd e) (snd e)"
        by (auto simp: zip_same)
      from e wx(2) have "well_formed n s (snd e)" by (simp add: list_all_iff)
      then have "compare n s (snd e) (snd e) = Some (Inr 0)" by (rule Suc.IH)
      with r show ?thesis by (auto simp: string_compare_refl)
    qed
    then have "first_nonzero (concat (map2 (\<lambda>l r. [Some (Inr (string_compare (fst l) (fst r))),
                                     compare n s (snd l) (snd r)]) m m)) = Some (Inr 0)"
      by (rule first_nonzero_zero)
    then show ?thesis unfolding eq spec_object_compare_def by simp
  qed (simp_all add: Json_type_def a both_def BooleanNode_value_def IntegerNode_value_def
        NumberNode_value_def Json_toString_def number_compare_IntegerNode_def
        number_compare_NumberNode_refl string_compare_refl)
qed

text \<open>
  Two integers whose difference is an \<open>int\<close>, and two doubles, compare by the sign of
  the difference.
\<close>

lemma number_compare_IntegerNode_sign:
  assumes "- 2147483648 \<le> sint x - sint y" "sint x - sint y < 2147483648"
  shows "number_compare_IntegerNode x y = sgn (sint x - sint y)"
proof -
  have "sint (x - y) = sint x - sint y"
    using assms by (simp add: sint_word_ariths signed_take_bit_int_eq_self)
  then show ?thesis
    by (simp add: number_compare_IntegerNode_def word_sless_alt sgn_if)
qed

lemma number_compare_NumberNode_sign:
  "(double_less x y \<longrightarrow> number_compare_NumberNode x y = - 1) \<and>
   (double_less y x \<longrightarrow> number_compare_NumberNode x y = 1) \<and>
   (x = y \<longrightarrow> number_compare_NumberNode x y = 0)"
  by (cases x; cases y) (auto simp: number_compare_NumberNode_def)

subsection \<open>Comparison: integer overflow\<close>

text \<open>
  C3. \<open>compare\<close> is not antisymmetric: \<open>number_compare\<close> subtracts the two \<open>int\<close>
  payloads, and \<open>0 - INT_MIN\<close> overflows. With the integers \<open>0\<close> and \<open>-2147483648\<close>,
  \<open>compare\<close> returns \<open>-1\<close> in both directions.
\<close>

theorem compare_not_antisymmetric:
  "node_at overflow_state 1 = Some (IntegerNode 0) \<and>
   node_at overflow_state 2 = Some (IntegerNode (- 2147483648)) \<and>
   compare (Suc 0) overflow_state 1 2 = Some (Inr (- 1)) \<and>
   compare (Suc 0) overflow_state 2 1 = Some (Inr (- 1))"
  by (simp add: overflow_state_heap Json_type_def node_at_def both_def IntegerNode_value_def
      number_compare_IntegerNode_def word_sless_alt)

text \<open>
  C4. \<open>compare\<close> on the integers \<open>2147483647\<close> and \<open>-1\<close> returns \<open>-1\<close>, although the
  first is the greater: their difference is not an \<open>int\<close>.
\<close>

theorem integer_compare_overflow:
  "node_at overflow_state 3 = Some (IntegerNode 2147483647) \<and>
   node_at overflow_state 4 = Some (IntegerNode (- 1)) \<and>
   sint (- 1 :: cint) < sint (2147483647 :: cint) \<and>
   compare (Suc 0) overflow_state 3 4 = Some (Inr (- 1))"
  by (simp add: overflow_state_heap Json_type_def node_at_def both_def IntegerNode_value_def
      number_compare_IntegerNode_def word_sless_alt)

end
